theory Spec2Isabelle
  imports Complex_Main
begin

section \<open>Data model of the study tracker\<close>

text \<open>
  The source is a single React component. Its state cells (\<open>subjects\<close>, \<open>records\<close>,
  \<open>activeTimer\<close>, \<open>timerSubjectId\<close>, \<open>timerDurationMin\<close>) become the fields of one
  record that every handler takes and returns. Each handler runs to completion on the
  state of the render it was created in, so a handler is a function from state to state.

  JavaScript numbers are modelled where they are whole numbers: epoch milliseconds,
  seconds, minutes, targets and the timer's duration in minutes are \<open>int\<close>.
  \<open>Math.floor (a / b)\<close> on them is \<open>a div b\<close>, which rounds towards minus infinity as
  \<open>Math.floor\<close> does, and \<open>Math.round\<close> of a whole number is the number itself. A
  fractional duration, which the number field also accepts, is multiplied by 60 as an IEEE
  double before it is rounded; that product, \<open>NaN\<close> and the infinities are outside the
  model. \<open>undefined\<close> and \<open>null\<close> are \<open>None\<close>.
\<close>

datatype StatusTag = Done | Partial | Miss

type_synonym Status = "StatusTag option"

record Subject =
  id_subject :: string
  name :: string
  color :: string
  targetMin :: "int option"

record RecordEntry =
  status :: Status
  minutes :: "int option"
  note_text :: "string option"

type_synonym Records = "string \<Rightarrow> (string \<Rightarrow> RecordEntry option) option"

record ActiveTimer =
  id_timer :: string
  subjectId :: string
  dateKey :: string
  targetSec :: int
  isRunning :: bool
  startedAt :: int
  elapsedSec :: int

record app_state =
  subjects :: "Subject list"
  records :: Records
  activeTimer :: "ActiveTimer option"
  timerSubjectId :: "string option"
  timerDurationMin :: int

text \<open>
  What a handler reads from its surroundings: \<open>Date.now()\<close> is \<open>nowMs\<close>, and
  \<open>DATE_FMT.toKey(new Date())\<close>, the local calendar day of the same instant, is
  \<open>todayKey\<close>. A handler uses of the clock exactly what its source reads.
\<close>

record clock =
  nowMs :: int
  todayKey :: string

text \<open>The argument of \<open>upsertRecord\<close>, a \<open>Partial<RecordEntry>\<close>: \<open>None\<close> is an absent key.\<close>

record RecordPatch =
  patch_status :: "Status option"
  patch_minutes :: "int option"
  patch_note :: "string option"

datatype alert = NoSubjectToTime

section \<open>Status from minutes\<close>

text \<open>
  \<open>statusFromMinutes(minutes, target?)\<close>: \<open>!minutes || minutes <= 0\<close> gives \<open>null\<close>;
  \<open>Number(target) || 0\<close> turns a missing target into \<open>0\<close>.
\<close>

definition statusFromMinutes :: "int \<Rightarrow> int option \<Rightarrow> Status" where
  "statusFromMinutes mins target =
     (if mins = 0 \<or> mins \<le> 0 then None
      else let T = (case target of None \<Rightarrow> 0 | Some n \<Rightarrow> n) in
        if T \<le> 0 then Some Partial
        else if mins \<ge> T then Some Done
        else if mins \<ge> \<lceil>(of_int T :: rat) / 2\<rceil> then Some Partial
        else None)"

text \<open>
  The specification's \<open>deriveStatus\<close>, written from its five bullet points, for comparison
  with the function of the source.
\<close>

definition deriveStatus_spec :: "int \<Rightarrow> int \<Rightarrow> Status" where
  "deriveStatus_spec mins targetMinutes =
     (if mins \<le> 0 then None
      else if targetMinutes \<le> 0 then Some Partial
      else if mins \<ge> targetMinutes then Some Done
      else if mins \<ge> \<lceil>(of_int targetMinutes :: rat) / 2\<rceil> then Some Partial
      else None)"

text \<open>
  The order on statuses that the specification names for monotonicity:
  unset below partial below done, and missed comparable with nothing but itself.
\<close>

fun status_le :: "Status \<Rightarrow> Status \<Rightarrow> bool" where
  "status_le None None = True"
| "status_le None (Some Partial) = True"
| "status_le None (Some Done) = True"
| "status_le (Some Partial) (Some Partial) = True"
| "status_le (Some Partial) (Some Done) = True"
| "status_le (Some Done) (Some Done) = True"
| "status_le (Some Miss) (Some Miss) = True"
| "status_le _ _ = False"

section \<open>Record store\<close>

definition getEntry :: "app_state \<Rightarrow> string \<Rightarrow> string \<Rightarrow> RecordEntry" where
  "getEntry s dk sid =
     (case records s dk of
        None \<Rightarrow> \<lparr>status = None, minutes = Some 0, note_text = Some ''''\<rparr>
      | Some day \<Rightarrow>
          (case day sid of
             None \<Rightarrow> \<lparr>status = None, minutes = Some 0, note_text = Some ''''\<rparr>
           | Some e \<Rightarrow> e))"

definition upsertRecord :: "string \<Rightarrow> string \<Rightarrow> RecordPatch \<Rightarrow> app_state \<Rightarrow> app_state" where
  "upsertRecord dk sid patch s =
     (let day = (case records s dk of None \<Rightarrow> Map.empty | Some d \<Rightarrow> d);
          entry = (case day sid of
                     None \<Rightarrow> \<lparr>status = None, minutes = None, note_text = None\<rparr>
                   | Some e \<Rightarrow> e);
          merged = \<lparr>status = (case patch_status patch of None \<Rightarrow> status entry | Some st \<Rightarrow> st),
                    minutes = (case patch_minutes patch of None \<Rightarrow> minutes entry | Some m \<Rightarrow> Some m),
                    note_text = (case patch_note patch of None \<Rightarrow> note_text entry | Some n \<Rightarrow> Some n)\<rparr>
      in s\<lparr>records := (records s)(dk \<mapsto> day(sid \<mapsto> merged))\<rparr>)"

text \<open>The expression \<open>getEntry(dateKey, sid).minutes || 0\<close> of the source.\<close>

definition minutesOf :: "app_state \<Rightarrow> string \<Rightarrow> string \<Rightarrow> int" where
  "minutesOf s dk sid = (case minutes (getEntry s dk sid) of None \<Rightarrow> 0 | Some m \<Rightarrow> m)"

text \<open>
  \<open>applyMinutes\<close> is a closure of the render that created it: it reads \<open>subjects\<close> and
  \<open>records\<close> (through \<open>getEntry\<close>) of that render, the first argument, and writes
  through the functional update of \<open>upsertRecord\<close> onto the latest state, the last
  argument. A button handler and the tick effect belong to the latest render, where the
  two are the same state.
\<close>

definition applyMinutes ::
  "app_state \<Rightarrow> string \<Rightarrow> string \<Rightarrow> int \<Rightarrow> app_state \<Rightarrow> app_state" where
  "applyMinutes rendered dk sid addMin s =
     (if addMin = 0 \<or> addMin \<le> 0 then s
      else let subj = find (\<lambda>x. id_subject x = sid) (subjects rendered);
               prevMin = minutesOf rendered dk sid;
               nextMin = max 0 (prevMin + addMin);  \<comment> \<open>\<open>Math.round\<close> of a whole number is itself\<close>
               st = statusFromMinutes nextMin (Option.bind subj targetMin)
           in upsertRecord dk sid
                \<lparr>patch_status = Some st, patch_minutes = Some nextMin, patch_note = None\<rparr> s)"

text \<open>\<open>removeSubject\<close>; the answer to the \<open>confirm\<close> dialog is the first argument.\<close>

definition removeSubject :: "bool \<Rightarrow> string \<Rightarrow> app_state \<Rightarrow> app_state" where
  "removeSubject confirmed sid s =
     (if \<not> confirmed then s
      else s\<lparr>subjects := filter (\<lambda>x. id_subject x \<noteq> sid) (subjects s)\<rparr>)"

section \<open>Timer\<close>

definition remainingSec :: "clock \<Rightarrow> ActiveTimer option \<Rightarrow> int" where
  "remainingSec c ot =
     (case ot of
        None \<Rightarrow> 0
      | Some t \<Rightarrow>
          (let passed = elapsedSec t +
                 (if isRunning t then (nowMs c - startedAt t) div 1000 else 0)
           in max 0 (targetSec t - passed)))"

text \<open>
  \<open>startTimer\<close>; the fresh \<open>nanoid()\<close> is the second argument. With no subject selected
  (\<open>!timerSubjectId\<close>: \<open>null\<close> or the empty string) the source alerts and returns.
  The target is \<open>Math.max(60, Math.round(timerDurationMin * 60))\<close>; the duration is a whole
  number of minutes here, so the product is exact and \<open>Math.round\<close> leaves it as it is.
\<close>

definition startTimer :: "clock \<Rightarrow> string \<Rightarrow> app_state \<Rightarrow> alert option \<times> app_state" where
  "startTimer c newId s =
     (case timerSubjectId s of
        None \<Rightarrow> (Some NoSubjectToTime, s)
      | Some sid \<Rightarrow>
          if sid = [] then (Some NoSubjectToTime, s)
          else
            (None,
             s\<lparr>activeTimer := Some
                 \<lparr>id_timer = newId,
                  subjectId = sid,
                  dateKey = todayKey c,
                  targetSec = max 60 (timerDurationMin s * 60),
                  isRunning = True,
                  startedAt = nowMs c,
                  elapsedSec = 0\<rparr>\<rparr>))"

definition pauseTimer :: "clock \<Rightarrow> app_state \<Rightarrow> app_state" where
  "pauseTimer c s =
     (case activeTimer s of
        None \<Rightarrow> s
      | Some t \<Rightarrow>
          if \<not> isRunning t then s
          else let addSec = (nowMs c - startedAt t) div 1000;
                   nt = t\<lparr>isRunning := False, elapsedSec := elapsedSec t + addSec\<rparr>;
                   addMin = addSec div 60;
                   s1 = (if addMin > 0 then applyMinutes s (dateKey t) (subjectId t) addMin s else s)
               in s1\<lparr>activeTimer := Some nt\<rparr>)"

definition resumeTimer :: "clock \<Rightarrow> app_state \<Rightarrow> app_state" where
  "resumeTimer c s =
     (case activeTimer s of
        None \<Rightarrow> s
      | Some t \<Rightarrow> s\<lparr>activeTimer := Some (t\<lparr>isRunning := True, startedAt := nowMs c\<rparr>)\<rparr>)"

definition stopTimer :: "bool \<Rightarrow> clock \<Rightarrow> app_state \<Rightarrow> app_state" where
  "stopTimer commit c s =
     (case activeTimer s of
        None \<Rightarrow> s\<lparr>activeTimer := None\<rparr>
      | Some t \<Rightarrow>
          (let totalSec = elapsedSec t +
                 (if isRunning t then (nowMs c - startedAt t) div 1000 else 0);
               s1 = (if commit
                     then (let addMin = totalSec div 60
                           in if addMin > 0 then applyMinutes s (dateKey t) (subjectId t) addMin s
                              else s)
                     else s)
           in s1\<lparr>activeTimer := None\<rparr>))"

text \<open>The effect that runs after every change of \<open>tick\<close>: auto-finish at zero remaining.\<close>

definition tickTimer :: "clock \<Rightarrow> app_state \<Rightarrow> app_state" where
  "tickTimer c s =
     (case activeTimer s of
        None \<Rightarrow> s
      | Some t \<Rightarrow>
          if remainingSec c (Some t) \<le> 0
          then (let addMin = targetSec t div 60;
                    s1 = (if addMin > 0 then applyMinutes s (dateKey t) (subjectId t) addMin s
                          else s)
                in s1\<lparr>activeTimer := None\<rparr>)
          else s)"

text \<open>
  The \<open>beforeunload\<close> handler. The effect that registers it has an empty dependency
  list, so the handler that runs is the one of the first render, and the \<open>applyMinutes\<close>
  it calls reads the subjects and records of that render: the first argument.
\<close>

definition onUnload :: "app_state \<Rightarrow> clock \<Rightarrow> app_state \<Rightarrow> app_state" where
  "onUnload mounted c s =
     (case activeTimer s of
        None \<Rightarrow> s
      | Some t \<Rightarrow>
          (let sec = elapsedSec t +
                 (if isRunning t then (nowMs c - startedAt t) div 1000 else 0);
               addMin = sec div 60;
               s1 = (if addMin > 0 then applyMinutes mounted (dateKey t) (subjectId t) addMin s else s)
           in s1\<lparr>activeTimer := None\<rparr>))"

section \<open>Events after the start\<close>

text \<open>
  What can happen to the timer once it is started: the three buttons, the effect of the
  one-second tick, and the \<open>beforeunload\<close> handler. Each event carries the clock the
  handler would read when it runs. \<open>step\<close> and \<open>run\<close> take the state of the first render
  for the \<open>beforeunload\<close> handler.
\<close>

datatype event = Pause clock | Resume clock | Stop bool clock | Tick clock | Unload clock

fun step :: "app_state \<Rightarrow> event \<Rightarrow> app_state \<Rightarrow> app_state" where
  "step mounted (Pause c) s = pauseTimer c s"
| "step mounted (Resume c) s = resumeTimer c s"
| "step mounted (Stop commit c) s = stopTimer commit c s"
| "step mounted (Tick c) s = tickTimer c s"
| "step mounted (Unload c) s = onUnload mounted c s"

fun run :: "app_state \<Rightarrow> event list \<Rightarrow> app_state \<Rightarrow> app_state" where
  "run mounted [] s = s"
| "run mounted (e # es) s = run mounted es (step mounted e s)"

text \<open>The clock that shows \<open>ms\<close> epoch milliseconds on the calendar day \<open>day\<close>.\<close>

definition clockAt :: "string \<Rightarrow> int \<Rightarrow> clock" where
  "clockAt day ms = \<lparr>nowMs = ms, todayKey = day\<rparr>"

text \<open>
  A paused timer taken through rounds of Resume and Pause. A round \<open>(g, r)\<close> resumes
  \<open>g\<close> milliseconds after the last event and pauses \<open>r\<close> milliseconds later; the result
  is the time of the last pause and the state then.
\<close>

fun rounds :: "string \<Rightarrow> (int \<times> int) list \<Rightarrow> int \<Rightarrow> app_state \<Rightarrow> int \<times> app_state" where
  "rounds day [] now s = (now, s)"
| "rounds day ((g, r) # xs) now s =
     rounds day xs (now + g + r)
       (pauseTimer (clockAt day (now + g + r)) (resumeTimer (clockAt day (now + g)) s))"

text \<open>The whole seconds that the rounds ran, and the whole minutes of each round.\<close>

definition roundSeconds :: "(int \<times> int) list \<Rightarrow> int" where
  "roundSeconds xs = sum_list (map (\<lambda>(g, r). r div 1000) xs)"

definition roundMinutes :: "(int \<times> int) list \<Rightarrow> int" where
  "roundMinutes xs = sum_list (map (\<lambda>(g, r). r div 1000 div 60) xs)"

text \<open>A state to evaluate the handlers on: one subject with a target of 60 minutes.\<close>

definition demo_state :: app_state where
  "demo_state =
     \<lparr>subjects = [\<lparr>id_subject = ''math'', name = ''Math'', color = ''#22c55e'',
                    targetMin = Some 60\<rparr>],
      records = Map.empty,
      activeTimer = None,
      timerSubjectId = Some ''math'',
      timerDurationMin = 25\<rparr>"

definition demo_day :: string where
  "demo_day = ''2024-05-01''"

definition next_day :: string where
  "next_day = ''2024-05-02''"

text \<open>The timer of \<open>demo_state\<close> started at time 0 of \<open>demo_day\<close>, still running.\<close>

definition demo_running :: app_state where
  "demo_running = snd (startTimer (clockAt demo_day 0) ''t-1'' demo_state)"

text \<open>The same timer paused after 70 seconds, then resumed and paused again 50 seconds on.\<close>

definition demo_paused_once :: app_state where
  "demo_paused_once = pauseTimer (clockAt demo_day 70000) demo_running"

definition demo_paused_twice :: app_state where
  "demo_paused_twice =
     pauseTimer (clockAt demo_day 125000) (resumeTimer (clockAt demo_day 75000) demo_paused_once)"

text \<open>A one-minute timer for the same subject, started at time 0.\<close>

definition demo_one_minute :: app_state where
  "demo_one_minute =
     snd (startTimer (clockAt demo_day 0) ''t-2'' (demo_state\<lparr>timerDurationMin := 1\<rparr>))"

section \<open>Status derivation\<close>

lemma ceiling_half: "\<lceil>(of_int T :: rat) / 2\<rceil> = (T + 1) div 2"
proof -
  have "- ((of_int T :: rat) / 2) = of_int (- T) / of_int 2" by simp
  then have "\<lceil>(of_int T :: rat) / 2\<rceil> = - ((- T) div 2)"
    unfolding ceiling_def by (simp only: floor_divide_of_int_eq)
  also have "\<dots> = (T + 1) div 2" by presburger
  finally show ?thesis .
qed

lemma statusFromMinutes_Some:
  "statusFromMinutes m (Some T) =
     (if m \<le> 0 then None
      else if T \<le> 0 then Some Partial
      else if T \<le> m then Some Done
      else if (T + 1) div 2 \<le> m then Some Partial
      else None)"
  by (simp add: statusFromMinutes_def ceiling_half)

lemma statusFromMinutes_None:
  "statusFromMinutes m None = (if m \<le> 0 then None else Some Partial)"
  by (simp add: statusFromMinutes_def)

text \<open>
  C3 (as amended). For a fixed target (present or missing), \<open>statusFromMinutes\<close> never
  moves down in the order unset, partial, done when the minutes grow; and with a target of
  at least 1, minutes that have reached the target give done, and so do all larger
  minutes. The restriction to targets of at least 1 is needed: a target of 0 means
  "no target", where positive minutes give partial.
\<close>

theorem statusFromMinutes_mono:
  "m1 \<le> m2 \<Longrightarrow>
     status_le (statusFromMinutes m1 tgt) (statusFromMinutes m2 tgt) \<and>
     (\<forall>T. tgt = Some T \<and> 1 \<le> T \<and> T \<le> m1 \<longrightarrow>
        statusFromMinutes m1 tgt = Some Done \<and> statusFromMinutes m2 tgt = Some Done)"
proof (cases tgt)
  case None
  assume "m1 \<le> m2"
  with None show ?thesis by (simp add: statusFromMinutes_None)
next
  case (Some T)
  assume le: "m1 \<le> m2"
  have mono: "status_le (statusFromMinutes m1 (Some T)) (statusFromMinutes m2 (Some T))"
  proof -
    have "(T + 1) div 2 \<le> T \<or> T \<le> 0" by presburger
    with le show ?thesis by (auto simp add: statusFromMinutes_Some)
  qed
  have reach: "1 \<le> T \<and> T \<le> m1 \<longrightarrow>
        statusFromMinutes m1 (Some T) = Some Done \<and> statusFromMinutes m2 (Some T) = Some Done"
    using le by (simp add: statusFromMinutes_Some)
  from mono reach Some show ?thesis by simp
qed

theorem statusFromMinutes_mono_witness:
  "(30::int) \<le> 75 \<and>
   statusFromMinutes 30 (Some 60) = Some Partial \<and>
   statusFromMinutes 75 (Some 60) = Some Done \<and>
   status_le (statusFromMinutes 30 (Some 60)) (statusFromMinutes 75 (Some 60)) \<and>
   (60::int) \<le> 75 \<and>
   status_le (statusFromMinutes 60 (Some 60)) (statusFromMinutes 75 (Some 60)) \<and>
   statusFromMinutes 60 (Some 60) = Some Done"
  using statusFromMinutes_mono [of 30 75 "Some 60"] statusFromMinutes_mono [of 60 75 "Some 60"]
  by (simp add: statusFromMinutes_Some)

text \<open>
  C3, as the claim states it, fails: 5 minutes against a target of 0 are non-negative
  integers with minutes at or above the target, and the status is partial, not done.
\<close>

theorem statusFromMinutes_zero_target_counterexample:
  "(0::int) \<le> 5 \<and> (0::int) \<le> 0 \<and> (0::int) \<le> 5 \<and>
   statusFromMinutes 5 (Some 0) = Some Partial \<and>
   statusFromMinutes 5 (Some 0) \<noteq> Some Done"
  by (simp add: statusFromMinutes_Some)

text \<open>
  C4. \<open>statusFromMinutes\<close> of the source equals the case analysis of the specification
  on all integer inputs (a missing target counts as target 0), and 0 minutes give unset
  for every target.
\<close>

theorem statusFromMinutes_matches_spec:
  "statusFromMinutes m (Some T) = deriveStatus_spec m T \<and>
   statusFromMinutes m None = deriveStatus_spec m 0 \<and>
   statusFromMinutes 0 (Some T) = None \<and>
   statusFromMinutes 0 None = None"
  by (simp add: statusFromMinutes_def deriveStatus_spec_def)

theorem statusFromMinutes_matches_spec_witness:
  "statusFromMinutes 30 (Some 60) = deriveStatus_spec 30 60 \<and>
   deriveStatus_spec 30 60 = Some Partial \<and>
   deriveStatus_spec 29 60 = None \<and>
   deriveStatus_spec 60 60 = Some Done \<and>
   statusFromMinutes 0 (Some 60) = None"
  using statusFromMinutes_matches_spec [of 30 60]
  by (simp add: deriveStatus_spec_def ceiling_half)

section \<open>Committing minutes\<close>

text \<open>
  C8. \<open>applyMinutes\<close> with an amount that is zero or negative returns the state it was
  given: no record of any date and subject changes, in minutes, status or note.
\<close>

theorem applyMinutes_nonpositive_noop:
  "addMin \<le> 0 \<Longrightarrow> applyMinutes rendered dk sid addMin s = s"
  by (simp add: applyMinutes_def)

theorem applyMinutes_nonpositive_noop_witness:
  "(- 3 :: int) \<le> 0 \<and>
   applyMinutes demo_state demo_day ''math'' (- 3) demo_state = demo_state \<and>
   (0 :: int) \<le> 0 \<and>
   applyMinutes demo_state demo_day ''math'' 0 demo_state = demo_state"
  using applyMinutes_nonpositive_noop [of "- 3" demo_state demo_day "''math''" demo_state]
    applyMinutes_nonpositive_noop [of 0 demo_state demo_day "''math''" demo_state]
  by simp

subsection \<open>Reading and writing the record store\<close>

lemma applyMinutes_fields [simp]:
  "activeTimer (applyMinutes rd dk sid a s) = activeTimer s"
  "subjects (applyMinutes rd dk sid a s) = subjects s"
  "timerSubjectId (applyMinutes rd dk sid a s) = timerSubjectId s"
  "timerDurationMin (applyMinutes rd dk sid a s) = timerDurationMin s"
  by (simp_all add: applyMinutes_def upsertRecord_def Let_def)

lemma minutesOf_applyMinutes:
  "0 < a \<Longrightarrow> minutesOf (applyMinutes rd dk sid a s) dk sid = max 0 (minutesOf rd dk sid + a)"
  by (simp add: applyMinutes_def upsertRecord_def minutesOf_def getEntry_def Let_def)

lemma status_applyMinutes:
  "0 < a \<Longrightarrow> status (getEntry (applyMinutes rd dk sid a s) dk sid) =
     statusFromMinutes (max 0 (minutesOf rd dk sid + a))
       (Option.bind (find (\<lambda>x. id_subject x = sid) (subjects rd)) targetMin)"
  by (simp add: applyMinutes_def upsertRecord_def getEntry_def Let_def)

lemma records_applyMinutes_other_day:
  "dk' \<noteq> dk \<Longrightarrow> records (applyMinutes rd dk sid a s) dk' = records s dk'"
  by (simp add: applyMinutes_def upsertRecord_def Let_def)

lemma getEntry_applyMinutes_other:
  "dk' \<noteq> dk \<or> sid' \<noteq> sid \<Longrightarrow> getEntry (applyMinutes rd dk sid a s) dk' sid' = getEntry s dk' sid'"
  by (auto simp add: applyMinutes_def upsertRecord_def getEntry_def Let_def split: option.splits)

lemma getEntry_activeTimer_update [simp]:
  "getEntry (s\<lparr>activeTimer := x\<rparr>) dk sid = getEntry s dk sid"
  by (simp add: getEntry_def)

lemma minutesOf_activeTimer_update [simp]:
  "minutesOf (s\<lparr>activeTimer := x\<rparr>) dk sid = minutesOf s dk sid"
  by (simp add: minutesOf_def)

section \<open>Pause, resume and stop\<close>

lemma pauseTimer_running:
  assumes "activeTimer s = Some t" and "isRunning t" and "startedAt t \<le> nowMs c"
    and "0 \<le> minutesOf s (dateKey t) (subjectId t)"
  shows "activeTimer (pauseTimer c s) =
           Some (t\<lparr>isRunning := False,
                   elapsedSec := elapsedSec t + (nowMs c - startedAt t) div 1000\<rparr>)"
    and "minutesOf (pauseTimer c s) (dateKey t) (subjectId t) =
           minutesOf s (dateKey t) (subjectId t) + (nowMs c - startedAt t) div 1000 div 60"
proof -
  let ?a = "(nowMs c - startedAt t) div 1000 div 60"
  show "activeTimer (pauseTimer c s) =
           Some (t\<lparr>isRunning := False,
                   elapsedSec := elapsedSec t + (nowMs c - startedAt t) div 1000\<rparr>)"
    using assms(1,2) by (simp add: pauseTimer_def Let_def)
  have nn: "0 \<le> ?a" using assms(3) by (simp add: pos_imp_zdiv_nonneg_iff)
  show "minutesOf (pauseTimer c s) (dateKey t) (subjectId t) =
           minutesOf s (dateKey t) (subjectId t) + ?a"
  proof (cases "0 < ?a")
    case True
    with assms show ?thesis by (simp add: pauseTimer_def Let_def minutesOf_applyMinutes)
  next
    case False
    with nn have "?a = 0" by simp
    with assms(1,2) show ?thesis by (simp add: pauseTimer_def Let_def)
  qed
qed

lemma stopTimer_commit:
  assumes "activeTimer s = Some t"
    and "p = elapsedSec t + (if isRunning t then (nowMs c - startedAt t) div 1000 else 0)"
    and "0 \<le> p"
    and "0 \<le> minutesOf s (dateKey t) (subjectId t)"
  shows "minutesOf (stopTimer True c s) (dateKey t) (subjectId t) =
           minutesOf s (dateKey t) (subjectId t) + p div 60"
    and "activeTimer (stopTimer True c s) = None"
proof -
  have nn: "0 \<le> p div 60" using assms(3) by (simp add: pos_imp_zdiv_nonneg_iff)
  show "activeTimer (stopTimer True c s) = None"
    using assms(1) by (simp add: stopTimer_def Let_def)
  show "minutesOf (stopTimer True c s) (dateKey t) (subjectId t) =
           minutesOf s (dateKey t) (subjectId t) + p div 60"
  proof (cases "0 < p div 60")
    case True
    with assms show ?thesis by (simp add: stopTimer_def Let_def minutesOf_applyMinutes)
  next
    case False
    with nn have "p div 60 = 0" by simp
    with assms(1,2) show ?thesis by (simp add: stopTimer_def Let_def)
  qed
qed

lemma resumeTimer_some:
  "activeTimer s = Some t \<Longrightarrow>
     activeTimer (resumeTimer c s) = Some (t\<lparr>isRunning := True, startedAt := nowMs c\<rparr>) \<and>
     minutesOf (resumeTimer c s) dk sid = minutesOf s dk sid"
  by (simp add: resumeTimer_def)

section \<open>Evaluating the example states\<close>

lemma clockAt_sel [simp]: "nowMs (clockAt d n) = n" "todayKey (clockAt d n) = d"
  by (simp_all add: clockAt_def)

lemma demo_state_minutes: "minutesOf demo_state dk sid = 0"
  by (simp add: minutesOf_def getEntry_def demo_state_def)

lemma demo_running_eval:
  "activeTimer demo_running =
     Some \<lparr>id_timer = ''t-1'', subjectId = ''math'', dateKey = demo_day, targetSec = 1500,
           isRunning = True, startedAt = 0, elapsedSec = 0\<rparr>"
  "timerSubjectId demo_running = Some ''math''"
  "timerDurationMin demo_running = 25"
  "records demo_running = Map.empty"
  "subjects demo_running = subjects demo_state"
  by (simp_all add: demo_running_def startTimer_def demo_state_def)

lemma demo_running_minutes: "minutesOf demo_running dk sid = 0"
  by (simp add: minutesOf_def getEntry_def demo_running_eval)

lemma demo_paused_once_eval:
  "activeTimer demo_paused_once =
     Some \<lparr>id_timer = ''t-1'', subjectId = ''math'', dateKey = demo_day, targetSec = 1500,
           isRunning = False, startedAt = 0, elapsedSec = 70\<rparr>"
  "minutesOf demo_paused_once demo_day ''math'' = 1"
  by (simp_all add: demo_paused_once_def demo_running_def pauseTimer_def startTimer_def demo_state_def
      Let_def applyMinutes_def upsertRecord_def minutesOf_def getEntry_def demo_day_def)

lemma demo_paused_twice_eval:
  "activeTimer demo_paused_twice =
     Some \<lparr>id_timer = ''t-1'', subjectId = ''math'', dateKey = demo_day, targetSec = 1500,
           isRunning = False, startedAt = 75000, elapsedSec = 120\<rparr>"
  "minutesOf demo_paused_twice demo_day ''math'' = 1"
proof -
  have r: "activeTimer (resumeTimer (clockAt demo_day 75000) demo_paused_once) =
      Some \<lparr>id_timer = ''t-1'', subjectId = ''math'', dateKey = demo_day, targetSec = 1500,
           isRunning = True, startedAt = 75000, elapsedSec = 70\<rparr>"
    by (simp add: resumeTimer_def demo_paused_once_eval)
  show "activeTimer demo_paused_twice =
     Some \<lparr>id_timer = ''t-1'', subjectId = ''math'', dateKey = demo_day, targetSec = 1500,
           isRunning = False, startedAt = 75000, elapsedSec = 120\<rparr>"
    by (simp add: demo_paused_twice_def pauseTimer_def r Let_def)
  show "minutesOf demo_paused_twice demo_day ''math'' = 1"
    by (simp add: demo_paused_twice_def pauseTimer_def r Let_def resumeTimer_some
        demo_paused_once_eval)
qed

lemma demo_one_minute_eval:
  "activeTimer demo_one_minute =
     Some \<lparr>id_timer = ''t-2'', subjectId = ''math'', dateKey = demo_day, targetSec = 60,
           isRunning = True, startedAt = 0, elapsedSec = 0\<rparr>"
  "minutesOf demo_one_minute dk sid = 0"
  by (simp_all add: demo_one_minute_def startTimer_def demo_state_def minutesOf_def getEntry_def)

section \<open>A commit for a deleted subject\<close>

lemma find_removed:
  "find (\<lambda>x. id_subject x = sid) (filter (\<lambda>x. id_subject x \<noteq> sid) xs) = None"
  by (simp add: find_None_iff)

text \<open>
  C7. Once the subject of the active timer has been removed from the registry,
  \<open>stopTimer(true)\<close> still writes: the whole minutes of the session are added under the
  stored subject id and the timer's date, the status written is partial (a missing subject
  has no target), and the timer is gone. The model has no error value because the source
  has no throwing step on this path: \<open>subjects.find\<close> gives \<open>undefined\<close> and
  \<open>subj?.targetMin\<close> passes it on. The same holds for every commit through
  \<open>applyMinutes\<close>, at any date and positive amount.
\<close>

theorem commit_after_subject_deleted:
  "activeTimer s = Some t \<Longrightarrow>
   tot = elapsedSec t + (if isRunning t then (nowMs c - startedAt t) div 1000 else 0) \<Longrightarrow>
   60 \<le> tot \<Longrightarrow>
   0 \<le> minutesOf s (dateKey t) (subjectId t) \<Longrightarrow>
   s' = stopTimer True c (removeSubject True (subjectId t) s) \<Longrightarrow>
     find (\<lambda>x. id_subject x = subjectId t) (subjects s') = None \<and>
     minutesOf s' (dateKey t) (subjectId t) =
       minutesOf s (dateKey t) (subjectId t) + tot div 60 \<and>
     status (getEntry s' (dateKey t) (subjectId t)) = Some Partial \<and>
     activeTimer s' = None \<and>
     (\<forall>dk a. 0 < a \<and> 0 \<le> minutesOf s dk (subjectId t) \<longrightarrow>
        minutesOf (applyMinutes (removeSubject True (subjectId t) s) dk (subjectId t) a
                     (removeSubject True (subjectId t) s)) dk (subjectId t) =
          minutesOf s dk (subjectId t) + a)"
proof -
  assume t: "activeTimer s = Some t"
    and tot: "tot = elapsedSec t + (if isRunning t then (nowMs c - startedAt t) div 1000 else 0)"
    and big: "60 \<le> tot"
    and m: "0 \<le> minutesOf s (dateKey t) (subjectId t)"
    and s': "s' = stopTimer True c (removeSubject True (subjectId t) s)"
  define s0 where "s0 = removeSubject True (subjectId t) s"
  have pos: "0 < tot div 60" using big by presburger
  have t0: "activeTimer s0 = Some t" using t by (simp add: s0_def removeSubject_def)
  have m0: "minutesOf s0 (dateKey t) (subjectId t) = minutesOf s (dateKey t) (subjectId t)"
    by (simp add: s0_def removeSubject_def minutesOf_def getEntry_def)
  have gone: "find (\<lambda>x. id_subject x = subjectId t) (subjects s0) = None"
    by (simp add: s0_def removeSubject_def find_removed)
  have eq: "s' = (applyMinutes s0 (dateKey t) (subjectId t) (tot div 60) s0)\<lparr>activeTimer := None\<rparr>"
    using t0 pos tot s' by (simp add: stopTimer_def Let_def s0_def)
  have nm: "0 < minutesOf s (dateKey t) (subjectId t) + tot div 60" using m pos by simp
  have any: "\<forall>dk a. 0 < a \<and> 0 \<le> minutesOf s dk (subjectId t) \<longrightarrow>
        minutesOf (applyMinutes s0 dk (subjectId t) a s0) dk (subjectId t) =
          minutesOf s dk (subjectId t) + a"
  proof (intro allI impI)
    fix dk and a :: int
    assume h: "0 < a \<and> 0 \<le> minutesOf s dk (subjectId t)"
    have "minutesOf s0 dk (subjectId t) = minutesOf s dk (subjectId t)"
      by (simp add: s0_def removeSubject_def minutesOf_def getEntry_def)
    with h show "minutesOf (applyMinutes s0 dk (subjectId t) a s0) dk (subjectId t) =
          minutesOf s dk (subjectId t) + a"
      by (simp add: minutesOf_applyMinutes)
  qed
  have stop: "find (\<lambda>x. id_subject x = subjectId t) (subjects s') = None \<and>
     minutesOf s' (dateKey t) (subjectId t) =
       minutesOf s (dateKey t) (subjectId t) + tot div 60 \<and>
     status (getEntry s' (dateKey t) (subjectId t)) = Some Partial \<and>
     activeTimer s' = None"
    using pos m gone nm
    by (simp add: eq minutesOf_applyMinutes status_applyMinutes m0 statusFromMinutes_None)
  from stop any show ?thesis unfolding s0_def by simp
qed

theorem commit_after_subject_deleted_witness:
  "subjects (removeSubject True ''math'' demo_running) = [] \<and>
   minutesOf (stopTimer True (clockAt demo_day 130000) (removeSubject True ''math'' demo_running))
     demo_day ''math'' = 2 \<and>
   status (getEntry (stopTimer True (clockAt demo_day 130000)
                       (removeSubject True ''math'' demo_running)) demo_day ''math'') = Some Partial \<and>
   activeTimer (stopTimer True (clockAt demo_day 130000) (removeSubject True ''math'' demo_running))
     = None \<and>
   minutesOf (applyMinutes (removeSubject True ''math'' demo_running) next_day ''math'' 5
                (removeSubject True ''math'' demo_running)) next_day ''math'' = 5 \<and>
   statusFromMinutes 2 (Some 60) = None"
proof -
  let ?t = "\<lparr>id_timer = ''t-1'', subjectId = ''math'', dateKey = demo_day, targetSec = 1500,
           isRunning = True, startedAt = 0, elapsedSec = 0\<rparr>"
  let ?c = "clockAt demo_day 130000"
  have a: "activeTimer demo_running = Some ?t" by (rule demo_running_eval(1))
  have p: "(130::int) = elapsedSec ?t + (if isRunning ?t then (nowMs ?c - startedAt ?t) div 1000 else 0)"
    by simp
  have big: "(60::int) \<le> 130" by simp
  have m: "0 \<le> minutesOf demo_running (dateKey ?t) (subjectId ?t)"
    by (simp add: demo_running_minutes)
  have sub: "subjects (removeSubject True ''math'' demo_running) = []"
    by (simp add: removeSubject_def demo_running_eval demo_state_def)
  from commit_after_subject_deleted [OF a p big m refl] sub show ?thesis
    by (simp add: demo_running_minutes statusFromMinutes_Some)
qed

section \<open>Start and cancel\<close>

text \<open>
  C9. \<open>startTimer\<close> followed by \<open>stopTimer(false)\<close> leaves the whole state as it was
  before, but for the active timer, which is gone: the records of every date and subject
  are unchanged, whatever the two clocks are.
\<close>

theorem start_then_cancel:
  "stopTimer False c2 (snd (startTimer c1 newId s)) = s\<lparr>activeTimer := None\<rparr> \<and>
   records (stopTimer False c2 (snd (startTimer c1 newId s))) = records s \<and>
   activeTimer (stopTimer False c2 (snd (startTimer c1 newId s))) = None"
  by (simp add: stopTimer_def startTimer_def split: option.splits)

theorem start_then_cancel_witness:
  "stopTimer False (clockAt demo_day 1000) (snd (startTimer (clockAt demo_day 0) ''t-1'' demo_state))
     = demo_state \<and>
   records (stopTimer False (clockAt demo_day 1000)
              (snd (startTimer (clockAt demo_day 0) ''t-1'' demo_state))) = Map.empty"
  using start_then_cancel [of "clockAt demo_day 1000" "clockAt demo_day 0" "''t-1''" demo_state]
  by (simp add: demo_state_def)

text \<open>
  C10. \<open>startTimer\<close> does not look at the active timer. With a timer already there and
  a subject selected, it puts a fresh timer in its place (no elapsed seconds, the date of
  the clock, \<open>max 60 (minutes * 60)\<close> target seconds) and writes nothing to the records:
  what the old timer had accumulated is dropped. The duration is a whole number of
  minutes, for which the target is also \<open>max 60 (round (minutes * 60))\<close>, the rounding of
  the source being the identity there.
\<close>

theorem start_replaces_timer:
  "activeTimer s = Some old \<Longrightarrow> timerSubjectId s = Some sid \<Longrightarrow> sid \<noteq> [] \<Longrightarrow>
     startTimer c newId s =
       (None, s\<lparr>activeTimer := Some
          \<lparr>id_timer = newId, subjectId = sid, dateKey = todayKey c,
           targetSec = max 60 (timerDurationMin s * 60),
           isRunning = True, startedAt = nowMs c, elapsedSec = 0\<rparr>\<rparr>) \<and>
     max 60 (timerDurationMin s * 60) =
       max 60 (round (rat_of_int (timerDurationMin s) * 60)) \<and>
     records (snd (startTimer c newId s)) = records s"
proof -
  assume a: "activeTimer s = Some old" "timerSubjectId s = Some sid" "sid \<noteq> []"
  have "rat_of_int (timerDurationMin s) * 60 = rat_of_int (timerDurationMin s * 60)" by simp
  then have r: "round (rat_of_int (timerDurationMin s) * 60) = timerDurationMin s * 60"
    by (simp only: round_of_int)
  from a r show ?thesis by (simp add: startTimer_def)
qed

theorem start_replaces_timer_witness:
  "map_option elapsedSec (activeTimer demo_paused_once) = Some 70 \<and>
   timerSubjectId demo_paused_once = Some ''math'' \<and>
   activeTimer (snd (startTimer (clockAt next_day 500000) ''t-3'' demo_paused_once)) =
     Some \<lparr>id_timer = ''t-3'', subjectId = ''math'', dateKey = next_day, targetSec = 1500,
           isRunning = True, startedAt = 500000, elapsedSec = 0\<rparr> \<and>
   records (snd (startTimer (clockAt next_day 500000) ''t-3'' demo_paused_once)) =
     records demo_paused_once"
proof -
  have a: "activeTimer demo_paused_once =
     Some \<lparr>id_timer = ''t-1'', subjectId = ''math'', dateKey = demo_day, targetSec = 1500,
           isRunning = False, startedAt = 0, elapsedSec = 70\<rparr>"
    by (rule demo_paused_once_eval(1))
  have b: "timerSubjectId demo_paused_once = Some ''math''"
    by (simp add: demo_paused_once_def pauseTimer_def demo_running_eval Let_def)
  have c: "timerDurationMin demo_paused_once = 25"
    by (simp add: demo_paused_once_def pauseTimer_def demo_running_eval Let_def)
  have n: "''math'' \<noteq> []" by simp
  from start_replaces_timer [OF a b n, of "clockAt next_day 500000" "''t-3''"] a b c
  show ?thesis by simp
qed

section \<open>Completion on the tick\<close>

text \<open>
  C5. When the remaining time of the active timer is 0, running or paused, the tick adds
  exactly \<open>targetSec div 60\<close> minutes to the record of the timer's date and subject,
  changes no other record and removes the timer. The clock, and so the overrun, has no
  part in the amount. The target seconds and the stored minutes are non-negative, as the
  data model has them.
\<close>

theorem tick_autocomplete:
  "activeTimer s = Some t \<Longrightarrow> remainingSec c (Some t) = 0 \<Longrightarrow> 0 \<le> targetSec t \<Longrightarrow>
   0 \<le> minutesOf s (dateKey t) (subjectId t) \<Longrightarrow>
     activeTimer (tickTimer c s) = None \<and>
     minutesOf (tickTimer c s) (dateKey t) (subjectId t) =
       minutesOf s (dateKey t) (subjectId t) + targetSec t div 60 \<and>
     (\<forall>dk sid. dk \<noteq> dateKey t \<or> sid \<noteq> subjectId t \<longrightarrow>
        getEntry (tickTimer c s) dk sid = getEntry s dk sid)"
proof -
  assume t: "activeTimer s = Some t" and rem: "remainingSec c (Some t) = 0"
    and tgt: "0 \<le> targetSec t" and m: "0 \<le> minutesOf s (dateKey t) (subjectId t)"
  have d: "0 \<le> targetSec t div 60" using tgt by simp
  show ?thesis
  proof (cases "0 < targetSec t div 60")
    case True
    with t rem m show ?thesis
      by (simp add: tickTimer_def Let_def minutesOf_applyMinutes getEntry_applyMinutes_other)
  next
    case False
    with d have "targetSec t div 60 = 0" by simp
    with t rem show ?thesis by (simp add: tickTimer_def Let_def)
  qed
qed

theorem tick_autocomplete_witness:
  "remainingSec (clockAt next_day 95000) (activeTimer demo_one_minute) = 0 \<and>
   activeTimer (tickTimer (clockAt next_day 95000) demo_one_minute) = None \<and>
   minutesOf (tickTimer (clockAt next_day 95000) demo_one_minute) demo_day ''math'' = 1 \<and>
   getEntry (tickTimer (clockAt next_day 95000) demo_one_minute) next_day ''math'' =
     getEntry demo_one_minute next_day ''math''"
proof -
  let ?t = "\<lparr>id_timer = ''t-2'', subjectId = ''math'', dateKey = demo_day, targetSec = 60,
           isRunning = True, startedAt = 0, elapsedSec = 0\<rparr>"
  have a: "activeTimer demo_one_minute = Some ?t" by (rule demo_one_minute_eval(1))
  have r: "remainingSec (clockAt next_day 95000) (Some ?t) = 0"
    by (simp add: remainingSec_def)
  have g: "0 \<le> targetSec ?t" by simp
  have m: "0 \<le> minutesOf demo_one_minute (dateKey ?t) (subjectId ?t)"
    by (simp add: demo_one_minute_eval)
  have ne: "next_day \<noteq> demo_day" by (simp add: next_day_def demo_day_def)
  from tick_autocomplete [OF a r g m] a r ne show ?thesis
    by (simp add: demo_one_minute_eval)
qed

section \<open>The date of the start\<close>

lemma step_frozen:
  "(\<forall>t. activeTimer s = Some t \<longrightarrow> dateKey t = D) \<Longrightarrow> d \<noteq> D \<Longrightarrow>
     records (step mt e s) d = records s d \<and>
     (\<forall>t. activeTimer (step mt e s) = Some t \<longrightarrow> dateKey t = D)"
  by (cases e)
     (auto simp add: pauseTimer_def resumeTimer_def stopTimer_def tickTimer_def onUnload_def
        Let_def records_applyMinutes_other_day split: option.splits)

lemma run_frozen:
  "(\<forall>t. activeTimer s = Some t \<longrightarrow> dateKey t = D) \<Longrightarrow> d \<noteq> D \<Longrightarrow>
     records (run mt evs s) d = records s d \<and>
     (\<forall>t. activeTimer (run mt evs s) = Some t \<longrightarrow> dateKey t = D)"
proof (induction evs arbitrary: s)
  case Nil
  then show ?case by simp
next
  case (Cons e es)
  from step_frozen [OF Cons.prems] have
    r: "records (step mt e s) d = records s d" and
    k: "\<forall>t. activeTimer (step mt e s) = Some t \<longrightarrow> dateKey t = D" by simp_all
  from Cons.IH [OF k Cons.prems(2)] r show ?case by simp
qed

text \<open>
  C6. After a successful start, whatever events follow (pause, resume, stop, tick,
  unload) and whatever day their clocks show, the records of every date other than the
  date captured at the start stay as they were, and a timer that is still there carries
  that date.
\<close>

theorem dateKey_frozen:
  "timerSubjectId s = Some sid \<Longrightarrow> sid \<noteq> [] \<Longrightarrow> d \<noteq> todayKey c0 \<Longrightarrow>
     records (run mt evs (snd (startTimer c0 newId s))) d = records s d \<and>
     (\<forall>t. activeTimer (run mt evs (snd (startTimer c0 newId s))) = Some t \<longrightarrow>
        dateKey t = todayKey c0)"
proof -
  assume sid: "timerSubjectId s = Some sid" "sid \<noteq> []" and d: "d \<noteq> todayKey c0"
  define s1 where "s1 = snd (startTimer c0 newId s)"
  have k: "\<forall>t. activeTimer s1 = Some t \<longrightarrow> dateKey t = todayKey c0"
    using sid by (auto simp add: s1_def startTimer_def)
  have r: "records s1 = records s"
    using sid by (simp add: s1_def startTimer_def)
  from run_frozen [OF k d, of mt evs] r show ?thesis by (simp add: s1_def)
qed

theorem dateKey_frozen_witness:
  "timerSubjectId demo_state = Some ''math'' \<and> next_day \<noteq> demo_day \<and>
   records (run demo_state [Pause (clockAt next_day 120000), Unload (clockAt next_day 200000)]
              demo_running) next_day = None \<and>
   minutesOf (step demo_state (Pause (clockAt next_day 120000)) demo_running) demo_day ''math'' = 2"
proof -
  have a: "timerSubjectId demo_state = Some ''math''" by (simp add: demo_state_def)
  have ne: "next_day \<noteq> todayKey (clockAt demo_day 0)" by (simp add: next_day_def demo_day_def)
  have m: "minutesOf (pauseTimer (clockAt next_day 120000) demo_running) demo_day ''math'' = 2"
    using pauseTimer_running(2) [OF demo_running_eval(1), of "clockAt next_day 120000"]
    by (simp add: demo_running_minutes)
  have e: "records demo_state next_day = None" by (simp add: demo_state_def)
  have ne': "next_day \<noteq> demo_day" using ne by simp
  have n: "''math'' \<noteq> []" by simp
  from dateKey_frozen [OF a n ne, of demo_state
      "[Pause (clockAt next_day 120000), Unload (clockAt next_day 200000)]" "''t-1''"]
  have "records (run demo_state [Pause (clockAt next_day 120000), Unload (clockAt next_day 200000)]
              demo_running) next_day = records demo_state next_day"
    unfolding demo_running_def by (rule conjunct1)
  with e a ne' m show ?thesis by simp
qed

section \<open>Minutes of a session with pauses\<close>

text \<open>
  C1, as the claim states it, fails. Start, pause after 70 seconds, resume, pause after 50
  more seconds: the elapsed seconds are 70 and then 120, the first pause commits 1 minute
  and the second commits none, so 1 minute is in the record and not \<open>120 div 60 = 2\<close>.
\<close>

theorem second_pause_counterexample:
  "minutesOf demo_state demo_day ''math'' = 0 \<and>
   minutesOf demo_paused_once demo_day ''math'' = 1 \<and>
   map_option elapsedSec (activeTimer demo_paused_once) = Some 70 \<and>
   map_option elapsedSec (activeTimer demo_paused_twice) = Some 120 \<and>
   minutesOf demo_paused_twice demo_day ''math'' = 1 \<and>
   minutesOf demo_paused_twice demo_day ''math'' \<noteq> 120 div 60"
  by (simp add: demo_paused_once_eval demo_paused_twice_eval)
     (simp add: minutesOf_def getEntry_def demo_state_def)

text \<open>
  C1 (as amended). A pause commits the whole minutes of the interval that it ends. After a
  start, a pause 70 seconds later commits exactly 1 minute and leaves 70 elapsed seconds
  on the paused timer; after a resume, a second pause 50 seconds later brings the elapsed
  seconds to 120 and commits \<open>50 div 60 = 0\<close> further minutes, so the two pauses have
  committed 1 minute together.
\<close>

theorem two_pauses_commit_interval_minutes:
  assumes "timerSubjectId s = Some sid \<and> sid \<noteq> []"
    and "0 \<le> minutesOf s (todayKey c0) sid"
    and "nowMs c1 = nowMs c0 + 70000"
    and "nowMs c3 = nowMs c2 + 50000"
    and "s2 = pauseTimer c1 (snd (startTimer c0 newId s))"
    and "s4 = pauseTimer c3 (resumeTimer c2 s2)"
  shows "minutesOf s2 (todayKey c0) sid = minutesOf s (todayKey c0) sid + 1 \<and>
         map_option elapsedSec (activeTimer s2) = Some 70 \<and>
         map_option isRunning (activeTimer s2) = Some False \<and>
         map_option elapsedSec (activeTimer s4) = Some 120 \<and>
         minutesOf s4 (todayKey c0) sid = minutesOf s (todayKey c0) sid + 1"
proof -
  define s1 where "s1 = snd (startTimer c0 newId s)"
  define t1 where "t1 = \<lparr>id_timer = newId, subjectId = sid, dateKey = todayKey c0,
      targetSec = max 60 (timerDurationMin s * 60), isRunning = True,
      startedAt = nowMs c0, elapsedSec = 0\<rparr>"
  have a1: "activeTimer s1 = Some t1" and m1: "minutesOf s1 (todayKey c0) sid = minutesOf s (todayKey c0) sid"
    using assms(1) by (simp_all add: s1_def t1_def startTimer_def)
  have f1: "isRunning t1" "startedAt t1 \<le> nowMs c1" "dateKey t1 = todayKey c0" "subjectId t1 = sid"
    using assms(3) by (simp_all add: t1_def)
  have n1: "0 \<le> minutesOf s1 (dateKey t1) (subjectId t1)" using m1 assms(2) f1 by simp
  define t2 where "t2 = t1\<lparr>isRunning := False, elapsedSec := 70\<rparr>"
  have a2: "activeTimer s2 = Some t2"
    using pauseTimer_running(1) [OF a1 f1(1,2) n1] assms(3)
    by (simp add: assms(5) s1_def t2_def t1_def)
  have m2: "minutesOf s2 (todayKey c0) sid = minutesOf s (todayKey c0) sid + 1"
    using pauseTimer_running(2) [OF a1 f1(1,2) n1] assms(3) m1
    by (simp add: assms(5) s1_def t1_def)
  define s3 where "s3 = resumeTimer c2 s2"
  define t3 where "t3 = t2\<lparr>isRunning := True, startedAt := nowMs c2\<rparr>"
  have a3: "activeTimer s3 = Some t3" and m3: "minutesOf s3 (todayKey c0) sid = minutesOf s2 (todayKey c0) sid"
    using resumeTimer_some [OF a2, of c2] by (simp_all add: s3_def t3_def)
  have f3: "isRunning t3" "startedAt t3 \<le> nowMs c3" "dateKey t3 = todayKey c0" "subjectId t3 = sid"
    "elapsedSec t3 = 70"
    using assms(4) by (simp_all add: t3_def t2_def t1_def)
  have n3: "0 \<le> minutesOf s3 (dateKey t3) (subjectId t3)" using m3 m2 assms(2) f3 by simp
  have a4: "map_option elapsedSec (activeTimer s4) = Some 120"
    using pauseTimer_running(1) [OF a3 f3(1,2) n3] assms(4) f3(5)
    by (simp add: assms(6) s3_def t3_def)
  have m4: "minutesOf s4 (todayKey c0) sid = minutesOf s (todayKey c0) sid + 1"
    using pauseTimer_running(2) [OF a3 f3(1,2) n3] assms(4) m3 m2 f3(3,4)
    by (simp add: assms(6) s3_def t3_def)
  from a2 m2 a4 m4 show ?thesis by (simp add: t2_def)
qed

theorem two_pauses_commit_interval_minutes_witness:
  "minutesOf demo_state demo_day ''math'' = 0 \<and>
   minutesOf demo_paused_once demo_day ''math'' = 1 \<and>
   map_option elapsedSec (activeTimer demo_paused_once) = Some 70 \<and>
   map_option isRunning (activeTimer demo_paused_once) = Some False \<and>
   map_option elapsedSec (activeTimer demo_paused_twice) = Some 120 \<and>
   minutesOf demo_paused_twice demo_day ''math'' = 1"
proof -
  have a: "timerSubjectId demo_state = Some ''math'' \<and> ''math'' \<noteq> []"
    by (simp add: demo_state_def)
  have m: "0 \<le> minutesOf demo_state (todayKey (clockAt demo_day 0)) ''math''"
    by (simp add: demo_state_minutes)
  have c1: "nowMs (clockAt demo_day 70000) = nowMs (clockAt demo_day 0) + 70000" by simp
  have c3: "nowMs (clockAt demo_day 125000) = nowMs (clockAt demo_day 75000) + 50000" by simp
  have s2: "demo_paused_once =
      pauseTimer (clockAt demo_day 70000) (snd (startTimer (clockAt demo_day 0) ''t-1'' demo_state))"
    by (simp add: demo_paused_once_def demo_running_def)
  have s4: "demo_paused_twice =
      pauseTimer (clockAt demo_day 125000) (resumeTimer (clockAt demo_day 75000) demo_paused_once)"
    by (simp add: demo_paused_twice_def)
  from two_pauses_commit_interval_minutes [OF a m c1 c3 s2 s4] show ?thesis
    by (simp add: demo_state_minutes)
qed

lemma rounds_account:
  assumes "activeTimer s = Some t" and "\<not> isRunning t"
    and "\<forall>(g, r) \<in> set xs. 0 \<le> r"
    and "0 \<le> minutesOf s (dateKey t) (subjectId t)"
  shows "\<exists>t'. activeTimer (snd (rounds day xs now s)) = Some t' \<and>
           dateKey t' = dateKey t \<and> subjectId t' = subjectId t \<and> \<not> isRunning t' \<and>
           elapsedSec t' = elapsedSec t + roundSeconds xs \<and>
           minutesOf (snd (rounds day xs now s)) (dateKey t) (subjectId t) =
             minutesOf s (dateKey t) (subjectId t) + roundMinutes xs"
  using assms
proof (induction xs arbitrary: s t now)
  case Nil
  then show ?case by (simp add: roundSeconds_def roundMinutes_def)
next
  case (Cons x xs)
  obtain g r where x: "x = (g, r)" by (cases x)
  have r0: "0 \<le> r" using Cons.prems(3) x by simp
  define s1 where "s1 = resumeTimer (clockAt day (now + g)) s"
  define t1 where "t1 = t\<lparr>isRunning := True, startedAt := now + g\<rparr>"
  define s2 where "s2 = pauseTimer (clockAt day (now + g + r)) s1"
  define t2 where "t2 = t1\<lparr>isRunning := False, elapsedSec := elapsedSec t + r div 1000\<rparr>"
  have a1: "activeTimer s1 = Some t1" and m1: "minutesOf s1 (dateKey t1) (subjectId t1) = minutesOf s (dateKey t) (subjectId t)"
    using resumeTimer_some [OF Cons.prems(1), of "clockAt day (now + g)"]
    by (simp_all add: s1_def t1_def clockAt_def)
  have run1: "isRunning t1" and st1: "startedAt t1 \<le> nowMs (clockAt day (now + g + r))"
    using r0 by (simp_all add: t1_def clockAt_def)
  have nn1: "0 \<le> minutesOf s1 (dateKey t1) (subjectId t1)" using m1 Cons.prems(4) by simp
  have a2: "activeTimer s2 = Some t2"
    using pauseTimer_running(1) [OF a1 run1 st1 nn1]
    by (simp add: s2_def t2_def t1_def clockAt_def)
  have m2: "minutesOf s2 (dateKey t) (subjectId t) =
              minutesOf s (dateKey t) (subjectId t) + r div 1000 div 60"
    using pauseTimer_running(2) [OF a1 run1 st1 nn1] m1
    by (simp add: s2_def t1_def clockAt_def)
  have p2: "\<not> isRunning t2" and k2: "dateKey t2 = dateKey t" "subjectId t2 = subjectId t"
    and e2: "elapsedSec t2 = elapsedSec t + r div 1000"
    by (simp_all add: t2_def t1_def)
  have nn2: "0 \<le> minutesOf s2 (dateKey t2) (subjectId t2)"
    using m2 Cons.prems(4) r0 by (simp add: k2 pos_imp_zdiv_nonneg_iff)
  have rest: "\<forall>(g, r) \<in> set xs. 0 \<le> r" using Cons.prems(3) by simp
  from Cons.IH [OF a2 p2 rest nn2, of "now + g + r"]
  obtain t' where
    "activeTimer (snd (rounds day xs (now + g + r) s2)) = Some t'"
    "dateKey t' = dateKey t" "subjectId t' = subjectId t" "\<not> isRunning t'"
    "elapsedSec t' = elapsedSec t + r div 1000 + roundSeconds xs"
    "minutesOf (snd (rounds day xs (now + g + r) s2)) (dateKey t) (subjectId t) =
       minutesOf s (dateKey t) (subjectId t) + r div 1000 div 60 + roundMinutes xs"
    by (auto simp add: k2 e2 m2)
  then show ?case
    by (simp add: x s2_def s1_def roundSeconds_def roundMinutes_def)
qed

text \<open>
  C2. A session is a start, a pause \<open>r0\<close> milliseconds later, and then any number of
  rounds of resume and pause. The pauses have committed \<open>k\<close> minutes, the sum of the whole
  minutes of each interval. A stop with commit then adds the whole minutes of all the
  elapsed seconds \<open>tot\<close> of the session once more, whether it comes while paused or after
  a last resume and \<open>rl\<close> more milliseconds: the record has grown by \<open>k + tot div 60\<close>,
  which is \<open>k\<close> more than the session's whole minutes.
\<close>

theorem pause_then_stop_double_counts:
  assumes "timerSubjectId s = Some sid \<and> sid \<noteq> []"
    and "0 \<le> minutesOf s (todayKey c0) sid"
    and "0 \<le> r0" and "\<forall>(g, r) \<in> set xs. 0 \<le> r" and "0 \<le> rl"
    and "sp = snd (rounds day xs (nowMs c0 + r0)
                 (pauseTimer (clockAt day (nowMs c0 + r0)) (snd (startTimer c0 newId s))))"
    and "k = r0 div 1000 div 60 + roundMinutes xs"
    and "tot = r0 div 1000 + roundSeconds xs"
    and "nowMs c2 = nowMs c1 + rl"
  shows "minutesOf sp (todayKey c0) sid = minutesOf s (todayKey c0) sid + k \<and>
         minutesOf (stopTimer True c sp) (todayKey c0) sid =
           minutesOf s (todayKey c0) sid + k + tot div 60 \<and>
         minutesOf (stopTimer True c2 (resumeTimer c1 sp)) (todayKey c0) sid =
           minutesOf s (todayKey c0) sid + k + (tot + rl div 1000) div 60"
proof -
  let ?D = "todayKey c0"
  define s1 where "s1 = snd (startTimer c0 newId s)"
  define t1 where "t1 = \<lparr>id_timer = newId, subjectId = sid, dateKey = todayKey c0,
      targetSec = max 60 (timerDurationMin s * 60), isRunning = True,
      startedAt = nowMs c0, elapsedSec = 0\<rparr>"
  have a1: "activeTimer s1 = Some t1" and m1: "minutesOf s1 ?D sid = minutesOf s ?D sid"
    using assms(1) by (simp_all add: s1_def t1_def startTimer_def)
  have f1: "isRunning t1" "startedAt t1 \<le> nowMs (clockAt day (nowMs c0 + r0))"
    "dateKey t1 = ?D" "subjectId t1 = sid"
    using assms(3) by (simp_all add: t1_def clockAt_def)
  have n1: "0 \<le> minutesOf s1 (dateKey t1) (subjectId t1)" using m1 assms(2) f1 by simp
  define s2 where "s2 = pauseTimer (clockAt day (nowMs c0 + r0)) s1"
  define t2 where "t2 = t1\<lparr>isRunning := False, elapsedSec := r0 div 1000\<rparr>"
  have a2: "activeTimer s2 = Some t2"
    using pauseTimer_running(1) [OF a1 f1(1,2) n1]
    by (simp add: s2_def t2_def t1_def clockAt_def)
  have m2: "minutesOf s2 ?D sid = minutesOf s ?D sid + r0 div 1000 div 60"
    using pauseTimer_running(2) [OF a1 f1(1,2) n1] m1
    by (simp add: s2_def t1_def clockAt_def)
  have f2: "\<not> isRunning t2" "dateKey t2 = ?D" "subjectId t2 = sid" "elapsedSec t2 = r0 div 1000"
    by (simp_all add: t2_def t1_def)
  have n2: "0 \<le> minutesOf s2 (dateKey t2) (subjectId t2)"
    using m2 assms(2,3) f2 by (simp add: pos_imp_zdiv_nonneg_iff)
  have sp: "sp = snd (rounds day xs (nowMs c0 + r0) s2)"
    by (simp add: assms(6) s2_def s1_def)
  from rounds_account [OF a2 f2(1) assms(4) n2, of day "nowMs c0 + r0"]
  obtain tp where ap: "activeTimer sp = Some tp"
    and fp: "dateKey tp = ?D" "subjectId tp = sid" "\<not> isRunning tp" "elapsedSec tp = tot"
    and mp: "minutesOf sp ?D sid = minutesOf s ?D sid + k"
    by (auto simp add: sp f2 m2 assms(7,8))
  have secs: "0 \<le> roundSeconds xs"
    unfolding roundSeconds_def using assms(4)
    by (intro sum_list_nonneg) (auto simp add: pos_imp_zdiv_nonneg_iff)
  have mins: "0 \<le> roundMinutes xs"
    unfolding roundMinutes_def using assms(4)
    by (intro sum_list_nonneg) (auto simp add: pos_imp_zdiv_nonneg_iff)
  have tot0: "0 \<le> tot" using secs assms(3) by (simp add: assms(8) pos_imp_zdiv_nonneg_iff)
  have k0: "0 \<le> k" using mins assms(3) by (simp add: assms(7) pos_imp_zdiv_nonneg_iff)
  have np: "0 \<le> minutesOf sp (dateKey tp) (subjectId tp)"
    using mp k0 assms(2) fp by simp
  have stopA: "minutesOf (stopTimer True c sp) ?D sid = minutesOf s ?D sid + k + tot div 60"
    using stopTimer_commit(1) [OF ap _ _ np, of tot c] fp tot0 mp by simp
  define sr where "sr = resumeTimer c1 sp"
  define tr where "tr = tp\<lparr>isRunning := True, startedAt := nowMs c1\<rparr>"
  have ar: "activeTimer sr = Some tr" and mr: "minutesOf sr ?D sid = minutesOf sp ?D sid"
    using resumeTimer_some [OF ap, of c1] by (simp_all add: sr_def tr_def)
  have fr: "dateKey tr = ?D" "subjectId tr = sid"
    "elapsedSec tr + (if isRunning tr then (nowMs c2 - startedAt tr) div 1000 else 0) = tot + rl div 1000"
    using fp assms(9) by (simp_all add: tr_def)
  have nr: "0 \<le> minutesOf sr (dateKey tr) (subjectId tr)" using mr np fp fr by simp
  have totr: "0 \<le> tot + rl div 1000" using tot0 assms(5) by (simp add: pos_imp_zdiv_nonneg_iff)
  have stopB: "minutesOf (stopTimer True c2 sr) ?D sid =
      minutesOf s ?D sid + k + (tot + rl div 1000) div 60"
    using stopTimer_commit(1) [OF ar fr(3) [symmetric] totr nr] fr(1,2) mr mp by simp
  from mp stopA stopB show ?thesis by (simp add: sr_def)
qed

theorem pause_then_stop_double_counts_witness:
  "roundMinutes [(5000, 50000)] = 0 \<and> roundSeconds [(5000, 50000)] = 50 \<and>
   minutesOf demo_state demo_day ''math'' = 0 \<and>
   minutesOf demo_paused_twice demo_day ''math'' = 1 \<and>
   minutesOf (stopTimer True (clockAt demo_day 130000) demo_paused_twice) demo_day ''math'' = 3 \<and>
   minutesOf (stopTimer True (clockAt demo_day 200000)
                (resumeTimer (clockAt demo_day 140000) demo_paused_twice)) demo_day ''math'' = 4"
proof -
  have a: "timerSubjectId demo_state = Some ''math'' \<and> ''math'' \<noteq> []"
    by (simp add: demo_state_def)
  have m: "0 \<le> minutesOf demo_state (todayKey (clockAt demo_day 0)) ''math''"
    by (simp add: demo_state_minutes)
  have r0: "(0::int) \<le> 70000" by simp
  have xs: "\<forall>(g, r) \<in> set [(5000::int, 50000::int)]. 0 \<le> r" by simp
  have rl: "(0::int) \<le> 60000" by simp
  have sp: "demo_paused_twice =
      snd (rounds demo_day [(5000, 50000)] (nowMs (clockAt demo_day 0) + 70000)
             (pauseTimer (clockAt demo_day (nowMs (clockAt demo_day 0) + 70000))
                (snd (startTimer (clockAt demo_day 0) ''t-1'' demo_state))))"
    by (simp add: demo_paused_twice_def demo_paused_once_def demo_running_def)
  have k: "(1::int) = 70000 div 1000 div 60 + roundMinutes [(5000, 50000)]"
    by (simp add: roundMinutes_def)
  have tot: "(120::int) = 70000 div 1000 + roundSeconds [(5000, 50000)]"
    by (simp add: roundSeconds_def)
  have c2: "nowMs (clockAt demo_day 200000) = nowMs (clockAt demo_day 140000) + 60000" by simp
  from pause_then_stop_double_counts [OF a m r0 xs rl sp k tot c2, of "clockAt demo_day 130000"]
  show ?thesis
    by (simp add: demo_state_minutes roundMinutes_def roundSeconds_def)
qed

end
